theory Spec2Isabelle
  imports Main
begin

section \<open>Data model of \<open>src/view/treeNodes/pullRequestNode.ts\<close>\<close>

text \<open>
  JavaScript numbers that hold identifiers, line numbers and diff positions are modelled as
  \<open>int\<close>; the code never computes with fractions. Objects are values: where the source
  mutates an object that is shared (a thread pushed into a result array and then collapsed, a
  file change whose comment list is spliced), the functions below return the updated value
  and the text next to each function says why no alias can observe a difference.
\<close>

datatype DiffChangeType = Context | Add | Delete | Control

record DiffLine =
  lineType :: DiffChangeType
  lineText :: string

record DiffHunk =
  oldLineNumber :: int
  oldLength :: int
  newLineNumber :: int
  newLength :: int
  diffLines :: "DiffLine list"

datatype GitChangeType = ADD | COPY | DELETE | MODIFY | RENAME | TYPE | UNKNOWN | UNMERGED

record Uri =
  scheme :: string
  uriPath :: string
  uriQuery :: string

record IAccount =
  login :: string
  avatarUrl :: string

record Reaction =
  label :: string
  viewerHasReacted :: bool

text \<open>
  \<open>Comment\<close> of \<open>common/comment\<close>: the fields this file reads. \<open>id'\<close> is the
  field \<open>id\<close>; \<open>position = None\<close> is JavaScript's \<open>null\<close>; \<open>isDraft\<close> and
  \<open>reactions\<close> may be missing.
\<close>

record Comment =
  id' :: int
  pullRequestReviewId :: "int option"
  path :: "string option"
  position :: "int option"
  body :: string
  user :: IAccount
  canEdit :: bool
  canDelete :: bool
  isDraft :: "bool option"
  reactions :: "Reaction list option"

record CommentReaction =
  reactionLabel :: string
  hasReacted :: bool

text \<open>
  \<open>vscode.Comment\<close>; \<open>commentBody\<close> is \<open>body.value\<close> of the markdown string. The
  threads of \<open>commentsToCommentThreads\<close> carry no \<open>commentReactions\<close> field at all
  (\<open>None\<close>); those of \<open>providePRDocumentComments\<close> always carry one.
\<close>

record VsComment =
  commentId :: string
  commentBody :: string
  userName :: string
  gravatar :: string
  commentCanEdit :: bool
  commentCanDelete :: bool
  commentIsDraft :: bool
  commentReactions :: "CommentReaction list option"

record Position =
  line :: int
  character :: int

record Range =
  rangeStart :: Position
  rangeEnd :: Position

datatype CommentThreadCollapsibleState = Collapsed | Expanded

text \<open>
  \<open>vscode.CommentThread\<close>; \<open>threadComments\<close> is its field \<open>comments\<close>. The thread that
  \<open>createNewCommentThread\<close> returns has no \<open>collapsibleState\<close>.
\<close>

record CommentThread =
  threadId :: string
  resource :: Uri
  range :: Range
  threadComments :: "VsComment list"
  collapsibleState :: "CommentThreadCollapsibleState option"

record InMemFileChange =
  status :: GitChangeType
  fileName :: string
  previousFileName :: "string option"
  filePath :: Uri
  parentFilePath :: Uri
  isPartial :: bool
  patch :: string
  diffHunks :: "DiffHunk list"
  comments :: "Comment list"

text \<open>The two classes of file change this node holds: remote ones have no hunks and no comments.\<close>

datatype FileChangeNode =
    RemoteFileChangeNode string
  | InMemFileChangeNode InMemFileChange

fun nodeFileName :: "FileChangeNode \<Rightarrow> string" where
  "nodeFileName (RemoteFileChangeNode n) = n"
| "nodeFileName (InMemFileChangeNode fc) = fileName fc"

text \<open>What \<open>fromPRUri\<close> reads out of a document uri (\<open>None\<close> when the uri is no PR uri).\<close>

record PRUriParams =
  paramsBaseCommit :: string
  paramsFileName :: string
  paramsIsBase :: bool
  paramsPrNumber :: int

record TextDocument =
  uri :: Uri
  lineCount :: int

record CommentInfo =
  threads :: "CommentThread list"
  commentingRanges :: "Range list"
  inDraftMode :: bool

record CommentThreadChangedEvent =
  added :: "CommentThread list"
  removed :: "CommentThread list"
  changed :: "CommentThread list"
  eventInDraftMode :: bool

text \<open>
  The functions of \<open>common/diffPositionMapping\<close> that map positions to lines belong to
  another module; every function below takes them as a parameter, so that each result holds
  for whatever they compute.
\<close>

record PositionMapping =
  getAbsolutePosition :: "Comment \<Rightarrow> DiffHunk list \<Rightarrow> bool \<Rightarrow> int"
  getPositionInDiff :: "Comment \<Rightarrow> DiffHunk list \<Rightarrow> bool \<Rightarrow> int"
  mapHeadLineToDiffHunkPosition :: "DiffHunk list \<Rightarrow> string \<Rightarrow> int \<Rightarrow> bool \<Rightarrow> int"

datatype error =
    NotValidPRDocument
  | NoMatchingFile
  | RemoteNotSupported
  | NegativePosition
  | UnableToFindComment
  | UnableToFindThread
  | TypeError
  | RemoteFailure string
  | Formatted error

section \<open>JavaScript built-ins the file relies on\<close>

definition vsPosition :: "int \<Rightarrow> int \<Rightarrow> Position" where
  "vsPosition l c = \<lparr>line = l, character = c\<rparr>"

definition vsRange :: "int \<Rightarrow> int \<Rightarrow> int \<Rightarrow> int \<Rightarrow> Range" where
  "vsRange sl sc el ec = \<lparr>rangeStart = vsPosition sl sc, rangeEnd = vsPosition el ec\<rparr>"

text \<open>\<open>Number.prototype.toString\<close> on an integer: its decimal digits, \<open>-\<close> first when negative.\<close>

definition digitChar :: "int \<Rightarrow> char" where
  "digitChar d = ''0123456789'' ! nat (d mod 10)"

function decimal :: "int \<Rightarrow> string" where
  "decimal n = (if n < 10 then [digitChar n] else decimal (n div 10) @ [digitChar (n mod 10)])"
  by pat_completeness auto
termination
  by (relation "measure nat") auto

declare decimal.simps [simp del]

definition toString :: "int \<Rightarrow> string" where
  "toString i = (if i < 0 then CHR ''-'' # decimal (- i) else decimal i)"

text \<open>\<open>String(comment.position)\<close>: \<open>null\<close> becomes the text \<open>null\<close>.\<close>

definition String_position :: "int option \<Rightarrow> string" where
  "String_position p = (case p of None \<Rightarrow> ''null'' | Some n \<Rightarrow> toString n)"

text \<open>\<open>Array.prototype.join\<close> on an array of strings.\<close>

fun join :: "string \<Rightarrow> string list \<Rightarrow> string" where
  "join sep [] = []"
| "join sep [x] = x"
| "join sep (x # y # ys) = x @ sep @ join sep (y # ys)"

text \<open>
  A \<open>for (k in obj)\<close> loop visits the own keys of an object in the order of
  \<open>OrdinaryOwnPropertyKeys\<close>: first the keys that are array indices (the decimal text of
  an integer below \<open>2^32 - 1\<close>, with no leading zero) by ascending value, then every other
  key in the order it was created. An object is an association list in creation order.
\<close>

definition digitValue :: "char \<Rightarrow> int option" where
  "digitValue c = (if c \<in> set ''0123456789'' then Some (of_char c - 48) else None)"

fun digitsValue :: "string \<Rightarrow> int \<Rightarrow> int option" where
  "digitsValue [] acc = Some acc"
| "digitsValue (c # cs) acc =
     (case digitValue c of None \<Rightarrow> None | Some d \<Rightarrow> digitsValue cs (10 * acc + d))"

definition arrayIndex :: "string \<Rightarrow> int option" where
  "arrayIndex s =
     (if s = [] then None
      else case digitsValue s 0 of
        None \<Rightarrow> None
      | Some n \<Rightarrow> if decimal n = s \<and> n < 4294967295 then Some n else None)"

definition indexOrder :: "string \<Rightarrow> int" where
  "indexOrder k = (case arrayIndex k of None \<Rightarrow> 0 | Some n \<Rightarrow> n)"

definition forIn :: "(string \<times> 'a) list \<Rightarrow> (string \<times> 'a) list" where
  "forIn obj =
     sort_key (\<lambda>kv. indexOrder (fst kv)) (filter (\<lambda>kv. arrayIndex (fst kv) \<noteq> None) obj)
     @ filter (\<lambda>kv. arrayIndex (fst kv) = None) obj"

section \<open>Helpers of \<open>common/\<close> that the file imports\<close>

text \<open>
  Modelled from the spec: \<open>getZeroBased\<close> of \<open>common/diffPositionMapping\<close> is not among
  the sources. Section 4.2: "convert a 1-based line number to 0-based; \<open>n <= 0\<close> maps to
  \<open>0\<close>".
\<close>

definition getZeroBased :: "int \<Rightarrow> int" where
  "getZeroBased n = (if n \<le> 0 then 0 else n - 1)"

text \<open>
  Modelled from the spec: \<open>groupBy\<close> of \<open>common/utils\<close> is not among the sources. Section
  4.4 has the comments partitioned by their key, each partition keeping the arrival order of
  its members; the result is the object that the callers walk with \<open>for ... in\<close>, so a key
  is created when its first member arrives.
\<close>

definition addToGroup :: "(string \<times> 'a list) list \<Rightarrow> string \<Rightarrow> 'a \<Rightarrow> (string \<times> 'a list) list" where
  "addToGroup result key el =
     (if key \<in> set (map fst result)
      then map (\<lambda>(k, v). if k = key then (k, v @ [el]) else (k, v)) result
      else result @ [(key, [el])])"

definition groupBy :: "'a list \<Rightarrow> ('a \<Rightarrow> string) \<Rightarrow> (string \<times> 'a list) list" where
  "groupBy arr fn = foldl (\<lambda>result el. addToGroup result (fn el) el) [] arr"

section \<open>Commenting ranges and the grouping of comments into threads\<close>

text \<open>
  Lines 40 to 62 of \<open>providePRDocumentComments\<close>: the loop over the hunks pushes one range
  per hunk.
\<close>

fun commentingRangesLoop :: "bool \<Rightarrow> DiffHunk list \<Rightarrow> Range list \<Rightarrow> Range list" where
  "commentingRangesLoop isBase [] ranges = ranges"
| "commentingRangesLoop isBase (diffHunk # rest) ranges =
     (let startingLine = (if isBase then getZeroBased (oldLineNumber diffHunk)
                          else getZeroBased (newLineNumber diffHunk));
          len = (if isBase then getZeroBased (oldLength diffHunk)
                 else getZeroBased (newLength diffHunk))
      in commentingRangesLoop isBase rest
           (ranges @ [vsRange startingLine 0 (startingLine + len) 0]))"

definition computeCommentingRanges :: "TextDocument \<Rightarrow> InMemFileChange \<Rightarrow> bool \<Rightarrow> Range list" where
  "computeCommentingRanges document fileChange isBase =
     (if isPartial fileChange then [vsRange 0 0 (lineCount document) 0]
      else commentingRangesLoop isBase (diffHunks fileChange) [])"

text \<open>The member objects built at lines 143 to 152, and at lines 95 to 107 with reactions.\<close>

definition toVsComment :: "Comment \<Rightarrow> VsComment" where
  "toVsComment comment =
     \<lparr>commentId = toString (id' comment),
      commentBody = body comment,
      userName = login (user comment),
      gravatar = avatarUrl (user comment),
      commentCanEdit = canEdit comment,
      commentCanDelete = canDelete comment,
      commentIsDraft = (isDraft comment = Some True),
      commentReactions = None\<rparr>"

definition toVsCommentWithReactions :: "Comment \<Rightarrow> VsComment" where
  "toVsCommentWithReactions comment =
     (toVsComment comment)
       \<lparr>commentReactions :=
          Some (case reactions comment of
                  None \<Rightarrow> []
                | Some rs \<Rightarrow>
                    map (\<lambda>reaction. \<lparr>reactionLabel = label reaction,
                                      hasReacted = viewerHasReacted reaction\<rparr>) rs)\<rparr>"

definition commentAbsolutePosition ::
  "PositionMapping \<Rightarrow> InMemFileChange \<Rightarrow> bool \<Rightarrow> Comment \<Rightarrow> int" where
  "commentAbsolutePosition m fileChange isBase firstComment =
     (if isPartial fileChange
      then getPositionInDiff m firstComment (diffHunks fileChange) isBase
      else getAbsolutePosition m firstComment (diffHunks fileChange) isBase)"

text \<open>
  The body of the \<open>for (let i in sections)\<close> loops at lines 76 to 111 and 124 to 156. The
  two loops differ in the thread's resource and in the member objects only, which are the
  parameters \<open>res\<close> and \<open>conv\<close>. Reading \<open>[0]\<close> of an empty group gives \<open>undefined\<close>, whose
  fields cannot be read.
\<close>

fun sectionsLoop ::
  "PositionMapping \<Rightarrow> InMemFileChange \<Rightarrow> bool \<Rightarrow> Uri \<Rightarrow> (Comment \<Rightarrow> VsComment)
     \<Rightarrow> (string \<times> Comment list) list \<Rightarrow> CommentThread list \<Rightarrow> error + CommentThread list" where
  "sectionsLoop m fileChange isBase res conv [] acc = Inr acc"
| "sectionsLoop m fileChange isBase res conv ((i, commentGroup) # rest) acc =
     (case commentGroup of
        [] \<Rightarrow> Inl TypeError
      | firstComment # _ \<Rightarrow>
          (let pos = commentAbsolutePosition m fileChange isBase firstComment in
           if pos < 0 then sectionsLoop m fileChange isBase res conv rest acc
           else sectionsLoop m fileChange isBase res conv rest
                  (acc @
                   [\<lparr>threadId = toString (id' firstComment),
                     resource = res,
                     range = vsRange (getZeroBased pos) 0 (getZeroBased pos) 0,
                     threadComments = map conv commentGroup,
                     collapsibleState = Some Expanded\<rparr>])))"


text \<open>
  \<open>providePRDocumentComments\<close>; \<open>params\<close> is \<open>fromPRUri(document.uri)\<close>, and \<open>Inr None\<close>
  is the \<open>undefined\<close> of the early returns.
\<close>

definition providePRDocumentComments ::
  "PositionMapping \<Rightarrow> PRUriParams option \<Rightarrow> TextDocument \<Rightarrow> int \<Rightarrow> FileChangeNode list \<Rightarrow> bool
     \<Rightarrow> error + CommentInfo option" where
  "providePRDocumentComments m params document prNumber fileChanges draft =
     (case params of
        None \<Rightarrow> Inr None
      | Some p \<Rightarrow>
          if paramsPrNumber p \<noteq> prNumber then Inr None
          else (case find (\<lambda>change. nodeFileName change = paramsFileName p) fileChanges of
                  None \<Rightarrow> Inr None
                | Some (RemoteFileChangeNode _) \<Rightarrow> Inr None
                | Some (InMemFileChangeNode fileChange) \<Rightarrow>
                    (let ranges = computeCommentingRanges document fileChange (paramsIsBase p) in
                     if comments fileChange = []
                     then Inr (Some \<lparr>threads = [], commentingRanges = ranges, inDraftMode = draft\<rparr>)
                     else (case sectionsLoop m fileChange (paramsIsBase p) (uri document)
                                  toVsCommentWithReactions
                                  (forIn (groupBy (comments fileChange)
                                            (\<lambda>comment. String_position (position comment)))) [] of
                             Inl e \<Rightarrow> Inl e
                           | Inr ts \<Rightarrow>
                               Inr (Some \<lparr>threads = ts, commentingRanges = ranges,
                                          inDraftMode = draft\<rparr>)))))"


section \<open>The thread reconciler\<close>

definition getRemovedCommentThreads :: "CommentThread list \<Rightarrow> CommentThread list \<Rightarrow> CommentThread list" where
  "getRemovedCommentThreads oldCommentThreads newCommentThreads =
     filter (\<lambda>thread.
        length (filter (\<lambda>newThread. threadId newThread = threadId thread) newCommentThreads) = 0)
       oldCommentThreads"

definition commentsEditedInThread :: "VsComment list \<Rightarrow> VsComment list \<Rightarrow> bool" where
  "commentsEditedInThread oldComments newComments =
     list_ex (\<lambda>oldComment.
        (case filter (\<lambda>newComment. commentId newComment = commentId oldComment) newComments of
           [matchingComment] \<Rightarrow> commentBody matchingComment \<noteq> commentBody oldComment
         | _ \<Rightarrow> True))
       oldComments"

text \<open>
  The \<open>forEach\<close> of \<open>getAddedOrUpdatedCommentThreads\<close>. A thread with no old match is
  pushed to \<open>added\<close> and collapsed in the same step when its resource is a file, so the array
  holds the collapsed object; a thread with an old match is never written to. The third
  component is \<open>newCommentThreads\<close> as the caller finds it afterwards.
\<close>

fun addedOrUpdatedLoop ::
  "CommentThread list \<Rightarrow> CommentThread list
     \<Rightarrow> CommentThread list \<times> CommentThread list \<times> CommentThread list
     \<Rightarrow> CommentThread list \<times> CommentThread list \<times> CommentThread list" where
  "addedOrUpdatedLoop oldCommentThreads [] acc = acc"
| "addedOrUpdatedLoop oldCommentThreads (thread # rest) (addedAcc, changedAcc, seen) =
     (let matchingCommentThread =
            filter (\<lambda>oldComment. threadId oldComment = threadId thread) oldCommentThreads;
          thread' = (if length matchingCommentThread = 0 \<and> scheme (resource thread) = ''file''
                     then thread\<lparr>collapsibleState := Some Collapsed\<rparr> else thread);
          addedAcc' = (if length matchingCommentThread = 0 then addedAcc @ [thread'] else addedAcc);
          changedAcc' = changedAcc @
             concat (map (\<lambda>match.
                if length (threadComments match) \<noteq> length (threadComments thread')
                   \<or> commentsEditedInThread (threadComments (hd matchingCommentThread))
                        (threadComments thread')
                then [thread'] else []) matchingCommentThread)
      in addedOrUpdatedLoop oldCommentThreads rest (addedAcc', changedAcc', seen @ [thread']))"

definition getAddedOrUpdatedCommentThreads ::
  "CommentThread list \<Rightarrow> CommentThread list
     \<Rightarrow> CommentThread list \<times> CommentThread list \<times> CommentThread list" where
  "getAddedOrUpdatedCommentThreads oldCommentThreads newCommentThreads =
     addedOrUpdatedLoop oldCommentThreads newCommentThreads ([], [], [])"


definition changedThreads :: "CommentThread list \<Rightarrow> CommentThread list \<Rightarrow> CommentThread list" where
  "changedThreads old new = fst (snd (getAddedOrUpdatedCommentThreads old new))"

definition threadsAfterReconcile :: "CommentThread list \<Rightarrow> CommentThread list \<Rightarrow> CommentThread list" where
  "threadsAfterReconcile old new = snd (snd (getAddedOrUpdatedCommentThreads old new))"

section \<open>Document content from the diff hunks\<close>

fun leftLines :: "DiffLine list \<Rightarrow> string list \<Rightarrow> string list" where
  "leftLines [] left = left"
| "leftLines (diffLine # rest) left =
     (if lineType diffLine = Add then leftLines rest left
      else if lineType diffLine = Delete then leftLines rest (left @ [lineText diffLine])
      else if lineType diffLine = Control then leftLines rest left
      else leftLines rest (left @ [lineText diffLine]))"

fun leftHunks :: "DiffHunk list \<Rightarrow> string list \<Rightarrow> string list" where
  "leftHunks [] left = left"
| "leftHunks (h # rest) left = leftHunks rest (leftLines (diffLines h) left)"

fun rightLines :: "DiffLine list \<Rightarrow> string list \<Rightarrow> string list" where
  "rightLines [] right = right"
| "rightLines (diffLine # rest) right =
     (if lineType diffLine = Add then rightLines rest (right @ [lineText diffLine])
      else if lineType diffLine = Delete then rightLines rest right
      else if lineType diffLine = Control then rightLines rest right
      else rightLines rest (right @ [lineText diffLine]))"

fun rightHunks :: "DiffHunk list \<Rightarrow> string list \<Rightarrow> string list" where
  "rightHunks [] right = right"
| "rightHunks (h # rest) right = rightHunks rest (rightLines (diffLines h) right)"

text \<open>
  What the node asks of the repository and of \<open>common/diffHunk\<close> when the content is not read
  from the hunks: \<open>repositoryShow commit name\<close> is the awaited
  \<open>repository.show(commit, path.join(root, name))\<close>.
\<close>

record ContentSources =
  repositoryShow :: "string \<Rightarrow> string \<Rightarrow> error + string"
  getModifiedContentFromDiffHunk :: "string \<Rightarrow> string \<Rightarrow> string"

definition isInMemNamed :: "string \<Rightarrow> FileChangeNode \<Rightarrow> bool" where
  "isInMemNamed n contentChange =
     (case contentChange of
        RemoteFileChangeNode _ \<Rightarrow> False
      | InMemFileChangeNode fc \<Rightarrow> fileName fc = n)"

definition provideDocumentContent ::
  "ContentSources \<Rightarrow> FileChangeNode list \<Rightarrow> PRUriParams option \<Rightarrow> error + string" where
  "provideDocumentContent src fileChanges params =
     (case params of
        None \<Rightarrow> Inr []
      | Some p \<Rightarrow>
          (case filter (isInMemNamed (paramsFileName p)) fileChanges of
             InMemFileChangeNode fileChange # _ \<Rightarrow>
               if isPartial fileChange \<or> status fileChange = ADD \<or> status fileChange = DELETE
               then (if paramsIsBase p
                     then Inr (join [CHR 0x0A] (leftHunks (diffHunks fileChange) []))
                     else Inr (join [CHR 0x0A] (rightHunks (diffHunks fileChange) [])))
               else (case (if status fileChange = RENAME then previousFileName fileChange
                           else Some (fileName fileChange)) of
                       None \<Rightarrow> Inl TypeError
                     | Some originalFileName \<Rightarrow>
                         (case repositoryShow src (paramsBaseCommit p) originalFileName of
                            Inl e \<Rightarrow> Inl e
                          | Inr originalContent \<Rightarrow>
                              if paramsIsBase p then Inr originalContent
                              else Inr (getModifiedContentFromDiffHunk src originalContent
                                          (patch fileChange))))
           | _ \<Rightarrow> Inr []))"

section \<open>The operations of \<open>PRNode\<close> on the comment lists\<close>

text \<open>
  The state of a node that these operations read and write: the number of its pull request
  and its file changes. \<open>getChildren\<close> creates one node object per raw change, so a file
  change is written through the first entry of its name, which is the entry that
  \<open>find\<close> returned.
\<close>

record PRNode =
  prNumber :: int
  fileChanges :: "FileChangeNode list"

text \<open>
  The awaited calls on \<open>PullRequestManager\<close>, each given by its outcome: \<open>Inl\<close> when the
  promise rejects. \<open>createComment\<close> and \<open>createCommentReply\<close> may resolve to
  \<open>undefined\<close>, which the callers read with \<open>rawComment!\<close>.
\<close>

record PullRequestManager =
  createComment :: "string \<Rightarrow> string \<Rightarrow> int \<Rightarrow> error + Comment option"
  editReviewComment :: "Comment \<Rightarrow> string \<Rightarrow> error + Comment"
  deleteReviewComment :: "string \<Rightarrow> error + unit"
  createCommentReply :: "string \<Rightarrow> Comment \<Rightarrow> error + Comment option"
  managerInDraftMode :: "error + bool"
  deleteReview :: "error + (int \<times> Comment list)"

text \<open>\<open>Array.prototype.findIndex\<close>: \<open>-1\<close> when no element satisfies the predicate.\<close>

fun findIndex :: "('a \<Rightarrow> bool) \<Rightarrow> 'a list \<Rightarrow> int" where
  "findIndex P [] = - 1"
| "findIndex P (x # xs) =
     (if P x then 0 else (let i = findIndex P xs in if i < 0 then - 1 else i + 1))"

definition findMatchingFileNode :: "PRNode \<Rightarrow> PRUriParams option \<Rightarrow> error + InMemFileChange" where
  "findMatchingFileNode node params =
     (case params of
        None \<Rightarrow> Inl NotValidPRDocument
      | Some p \<Rightarrow>
          (case find (\<lambda>change. nodeFileName change = paramsFileName p) (fileChanges node) of
             None \<Rightarrow> Inl NoMatchingFile
           | Some (RemoteFileChangeNode _) \<Rightarrow> Inl RemoteNotSupported
           | Some (InMemFileChangeNode fileChange) \<Rightarrow> Inr fileChange))"

fun updateFirstNamed :: "string \<Rightarrow> Comment list \<Rightarrow> FileChangeNode list \<Rightarrow> FileChangeNode list" where
  "updateFirstNamed n cs [] = []"
| "updateFirstNamed n cs (c # rest) =
     (if nodeFileName c = n
      then (case c of
              RemoteFileChangeNode r \<Rightarrow> RemoteFileChangeNode r
            | InMemFileChangeNode fc \<Rightarrow> InMemFileChangeNode (fc\<lparr>comments := cs\<rparr>)) # rest
      else c # updateFirstNamed n cs rest)"

definition setComments :: "PRNode \<Rightarrow> InMemFileChange \<Rightarrow> Comment list \<Rightarrow> PRNode" where
  "setComments node fileChange cs =
     node\<lparr>fileChanges := updateFirstNamed (fileName fileChange) cs (fileChanges node)\<rparr>"



definition editComment ::
  "PullRequestManager \<Rightarrow> PRNode \<Rightarrow> PRUriParams option \<Rightarrow> VsComment \<Rightarrow> string
     \<Rightarrow> (error + unit) \<times> PRNode" where
  "editComment mgr node params comment content =
     (case findMatchingFileNode node params of
        Inl e \<Rightarrow> (Inl e, node)
      | Inr fileChange \<Rightarrow>
          (case find (\<lambda>c. toString (id' c) = commentId comment) (comments fileChange) of
             None \<Rightarrow> (Inl UnableToFindComment, node)
           | Some existingComment \<Rightarrow>
               (case editReviewComment mgr existingComment content of
                  Inl e \<Rightarrow> (Inl e, node)
                | Inr rawComment \<Rightarrow>
                    (let index = findIndex (\<lambda>c. toString (id' c) = commentId comment)
                                   (comments fileChange) in
                     if index > - 1
                     then (Inr (), setComments node fileChange
                                     ((comments fileChange)[nat index := rawComment]))
                     else (Inr (), node)))))"

definition deleteComment ::
  "PullRequestManager \<Rightarrow> PRNode \<Rightarrow> PRUriParams option \<Rightarrow> VsComment
     \<Rightarrow> (error + CommentThreadChangedEvent) \<times> PRNode" where
  "deleteComment mgr node params comment =
     (case findMatchingFileNode node params of
        Inl e \<Rightarrow> (Inl e, node)
      | Inr fileChange \<Rightarrow>
          (case deleteReviewComment mgr (commentId comment) of
             Inl e \<Rightarrow> (Inl e, node)
           | Inr _ \<Rightarrow>
               (let index = findIndex (\<lambda>c. toString (id' c) = commentId comment)
                              (comments fileChange);
                    node' = (if index > - 1
                             then setComments node fileChange
                                    (take (nat index) (comments fileChange)
                                     @ drop (nat index + 1) (comments fileChange))
                             else node)
                in case managerInDraftMode mgr of
                     Inl e \<Rightarrow> (Inl e, node')
                   | Inr draft \<Rightarrow>
                       (Inr \<lparr>added = [], removed = [], changed = [], eventInDraftMode = draft\<rparr>,
                        node'))))"

definition replyToCommentThread ::
  "PullRequestManager \<Rightarrow> PRNode \<Rightarrow> PRUriParams option \<Rightarrow> CommentThread \<Rightarrow> string
     \<Rightarrow> (error + CommentThread) \<times> PRNode" where
  "replyToCommentThread mgr node params thread content =
     (case findMatchingFileNode node params of
        Inl e \<Rightarrow> (Inl (Formatted e), node)
      | Inr fileChange \<Rightarrow>
          (case find (\<lambda>c. toString (id' c) = threadId thread) (comments fileChange) of
             None \<Rightarrow> (Inl (Formatted UnableToFindThread), node)
           | Some commentFromThread \<Rightarrow>
               (case createCommentReply mgr content commentFromThread of
                  Inl e \<Rightarrow> (Inl (Formatted e), node)
                | Inr None \<Rightarrow> (Inl (Formatted TypeError), node)
                | Inr (Some rawComment) \<Rightarrow>
                    (Inr (thread\<lparr>threadComments :=
                                   threadComments thread @ [toVsComment rawComment]\<rparr>),
                     setComments node fileChange (comments fileChange @ [rawComment])))))"






section \<open>Auxiliary definitions for the proofs\<close>

text \<open>
  One step of the \<open>forEach\<close> of \<open>getAddedOrUpdatedCommentThreads\<close>, split into what it
  does to the thread and what it pushes to \<open>changed\<close>.
\<close>

definition collapseIfNew :: "CommentThread list \<Rightarrow> CommentThread \<Rightarrow> CommentThread" where
  "collapseIfNew old t =
     (if threadId t \<notin> threadId ` set old \<and> scheme (resource t) = ''file''
      then t\<lparr>collapsibleState := Some Collapsed\<rparr> else t)"

definition changedReports :: "CommentThread list \<Rightarrow> CommentThread \<Rightarrow> CommentThread list" where
  "changedReports old t =
     concat (map (\<lambda>match.
        if length (threadComments match) \<noteq> length (threadComments t)
           \<or> commentsEditedInThread
                (threadComments (hd (filter (\<lambda>oldComment. threadId oldComment = threadId t) old)))
                (threadComments t)
        then [t] else [])
       (filter (\<lambda>oldComment. threadId oldComment = threadId t) old))"

text \<open>What the reconciler can tell two threads apart by.\<close>

definition identityData :: "CommentThread \<Rightarrow> string \<times> (string \<times> string) list" where
  "identityData t = (threadId t, map (\<lambda>c. (commentId c, commentBody c)) (threadComments t))"





section \<open>Example data\<close>

text \<open>
  The diff of the scenarios: one hunk \<open>@@ -1,3 +1,4 @@\<close> and a second one further down.
\<close>

definition exHunk :: DiffHunk where
  "exHunk =
     \<lparr>oldLineNumber = 1, oldLength = 3, newLineNumber = 1, newLength = 4,
      diffLines =
        [\<lparr>lineType = Context, lineText = ''context''\<rparr>,
         \<lparr>lineType = Delete, lineText = ''old line''\<rparr>,
         \<lparr>lineType = Add, lineText = ''new line A''\<rparr>,
         \<lparr>lineType = Add, lineText = ''new line B''\<rparr>,
         \<lparr>lineType = Context, lineText = ''context2''\<rparr>]\<rparr>"

definition exHunk2 :: DiffHunk where
  "exHunk2 =
     \<lparr>oldLineNumber = 10, oldLength = 2, newLineNumber = 11, newLength = 3,
      diffLines =
        [\<lparr>lineType = Context, lineText = ''ten''\<rparr>,
         \<lparr>lineType = Add, lineText = ''inserted''\<rparr>,
         \<lparr>lineType = Context, lineText = ''eleven''\<rparr>,
         \<lparr>lineType = Control, lineText = ''no newline at end of file''\<rparr>]\<rparr>"

definition exUri :: "string \<Rightarrow> string \<Rightarrow> Uri" where
  "exUri s q = \<lparr>scheme = s, uriPath = ''/repo/a.ts'', uriQuery = q\<rparr>"

definition exComment :: "int \<Rightarrow> int option \<Rightarrow> string \<Rightarrow> Comment" where
  "exComment i p b =
     \<lparr>id' = i, pullRequestReviewId = Some 9, path = Some ''a.ts'', position = p, body = b,
      user = \<lparr>login = ''octocat'', avatarUrl = ''avatar''\<rparr>,
      canEdit = True, canDelete = True, isDraft = Some True, reactions = None\<rparr>"

definition exFile :: "Comment list \<Rightarrow> InMemFileChange" where
  "exFile cs =
     \<lparr>status = MODIFY, fileName = ''a.ts'', previousFileName = None,
      filePath = exUri ''pr'' ''head'', parentFilePath = exUri ''pr'' ''base'',
      isPartial = False, patch = [], diffHunks = [exHunk, exHunk2], comments = cs\<rparr>"

definition exParams :: "bool \<Rightarrow> int \<Rightarrow> PRUriParams" where
  "exParams b n =
     \<lparr>paramsBaseCommit = ''abc'', paramsFileName = ''a.ts'', paramsIsBase = b,
      paramsPrNumber = n\<rparr>"

definition exDocument :: TextDocument where
  "exDocument = \<lparr>uri = exUri ''pr'' ''head'', lineCount = 12\<rparr>"

text \<open>A mapping for the examples: positions 1 to 5 resolve to themselves, all others fail.\<close>

definition exMapping :: PositionMapping where
  "exMapping =
     \<lparr>getAbsolutePosition =
        (\<lambda>c hs b. case position c of None \<Rightarrow> - 1 | Some p \<Rightarrow> if 1 \<le> p \<and> p \<le> 5 then p else - 1),
      getPositionInDiff =
        (\<lambda>c hs b. case position c of None \<Rightarrow> - 1 | Some p \<Rightarrow> if 1 \<le> p \<and> p \<le> 5 then p else - 1),
      mapHeadLineToDiffHunkPosition = (\<lambda>hs s l b. if 1 \<le> l \<and> l \<le> 4 then l + 1 else - 1)\<rparr>"

definition exSources :: ContentSources where
  "exSources =
     \<lparr>repositoryShow = (\<lambda>commit name. Inl (RemoteFailure ''unavailable'')),
      getModifiedContentFromDiffHunk = (\<lambda>original p. original)\<rparr>"

definition exVs :: "string \<Rightarrow> string \<Rightarrow> VsComment" where
  "exVs i b =
     \<lparr>commentId = i, commentBody = b, userName = ''octocat'', gravatar = ''avatar'',
      commentCanEdit = True, commentCanDelete = True, commentIsDraft = False,
      commentReactions = None\<rparr>"

definition exThread :: "string \<Rightarrow> string \<Rightarrow> VsComment list \<Rightarrow> CommentThread" where
  "exThread i s ms =
     \<lparr>threadId = i, resource = exUri s ''head'', range = vsRange 2 0 2 0,
      threadComments = ms, collapsibleState = Some Expanded\<rparr>"



text \<open>
  A node for pull request 7 that holds a remote file change and the file of the examples,
  and a manager whose calls all succeed.
\<close>

definition exManager :: PullRequestManager where
  "exManager =
     \<lparr>createComment = (\<lambda>content n pos. Inr (Some (exComment 200 (Some pos) content))),
      editReviewComment = (\<lambda>c content. Inr (c\<lparr>body := content\<rparr>)),
      deleteReviewComment = (\<lambda>i. Inr ()),
      createCommentReply = (\<lambda>content c. Inr (Some (exComment 201 (position c) content))),
      managerInDraftMode = Inr False,
      deleteReview = Inr (9, [exComment 100 (Some 5) ''top'', exComment 101 (Some 5) ''reply''])\<rparr>"

definition exNode :: PRNode where
  "exNode =
     \<lparr>prNumber = 7,
      fileChanges = [RemoteFileChangeNode ''big.bin'',
                     InMemFileChangeNode (exFile [exComment 100 (Some 5) ''top''])]\<rparr>"









section \<open>Properties of the built-ins and helpers\<close>

subsection \<open>Decimal text of a number is injective\<close>









subsection \<open>Groups and the order of their keys\<close>

lemma groupBy_Nil: "groupBy [] fn = []"
  by (simp add: groupBy_def)

lemma groupBy_snoc: "groupBy (arr @ [x]) fn = addToGroup (groupBy arr fn) (fn x) x"
  by (simp add: groupBy_def)

lemma addToGroup_keys:
  "map fst (addToGroup r k x) = (if k \<in> set (map fst r) then map fst r else map fst r @ [k])"
  by (auto simp: addToGroup_def split: prod.splits)

lemma addToGroup_keys_set: "fst ` set (addToGroup r k x) = insert k (fst ` set r)"
proof -
  have "fst ` set (addToGroup r k x) = set (map fst (addToGroup r k x))" by simp
  also have "\<dots> = insert k (fst ` set r)" unfolding addToGroup_keys by auto
  finally show ?thesis .
qed


lemma groupBy_keys_set: "fst ` set (groupBy arr fn) = fn ` set arr"
  by (induction arr rule: rev_induct) (simp_all add: groupBy_Nil groupBy_snoc addToGroup_keys_set)

lemma filter_key_empty: "k \<notin> fn ` set xs \<Longrightarrow> filter (\<lambda>y. fn y = k) xs = []"
  by (induction xs) auto

lemma groupBy_groups:
  "(k, g) \<in> set (groupBy arr fn) \<Longrightarrow> g = filter (\<lambda>x. fn x = k) arr"
proof (induction arr arbitrary: k g rule: rev_induct)
  case Nil
  then show ?case by (simp add: groupBy_Nil)
next
  case (snoc x xs)
  show ?case
  proof (cases "fn x \<in> fst ` set (groupBy xs fn)")
    case True
    with snoc.prems obtain k' v where kv: "(k', v) \<in> set (groupBy xs fn)"
      and eq: "(k, g) = (if k' = fn x then (k', v @ [x]) else (k', v))"
      by (auto simp: groupBy_snoc addToGroup_def)
    from snoc.IH [OF kv] eq show ?thesis by (auto split: if_splits)
  next
    case False
    with snoc.prems have "(k, g) \<in> set (groupBy xs fn) \<or> (k, g) = (fn x, [x])"
      by (auto simp: groupBy_snoc addToGroup_def)
    then show ?thesis
    proof
      assume a: "(k, g) \<in> set (groupBy xs fn)"
      then have "k \<in> fst ` set (groupBy xs fn)" by force
      with False have "k \<noteq> fn x" by blast
      with snoc.IH [OF a] show ?thesis by simp
    next
      assume a: "(k, g) = (fn x, [x])"
      from False have "fn x \<notin> fn ` set xs" by (simp add: groupBy_keys_set)
      then have "filter (\<lambda>y. fn y = fn x) xs = []" by (rule filter_key_empty)
      with a show ?thesis by simp
    qed
  qed
qed

lemma groupBy_nonempty: "(k, g) \<in> set (groupBy arr fn) \<Longrightarrow> g \<noteq> []"
proof -
  assume a: "(k, g) \<in> set (groupBy arr fn)"
  then have "k \<in> fst ` set (groupBy arr fn)" by force
  then have "k \<in> fn ` set arr" by (simp add: groupBy_keys_set)
  then obtain y where "y \<in> set arr" "fn y = k" by auto
  then have "y \<in> set (filter (\<lambda>x. fn x = k) arr)" by simp
  with groupBy_groups [OF a] have "y \<in> set g" by simp
  then show ?thesis by auto
qed


lemma set_forIn: "set (forIn obj) = set obj"
  by (auto simp: forIn_def)


lemma sectionsLoop_map:
  "\<forall>s\<in>set sections. snd s \<noteq> [] \<Longrightarrow>
   sectionsLoop m fc isBase res conv sections acc =
     Inr (acc @ map (\<lambda>g. \<lparr>threadId = toString (id' (hd g)),
                          resource = res,
                          range = vsRange (getZeroBased (commentAbsolutePosition m fc isBase (hd g))) 0
                                    (getZeroBased (commentAbsolutePosition m fc isBase (hd g))) 0,
                          threadComments = map conv g,
                          collapsibleState = Some Expanded\<rparr>)
                  (filter (\<lambda>g. 0 \<le> commentAbsolutePosition m fc isBase (hd g)) (map snd sections)))"
proof (induction sections arbitrary: acc)
  case Nil
  show ?case by simp
next
  case (Cons s rest)
  obtain i g where s: "s = (i, g)" by (cases s)
  with Cons.prems obtain c cs where g: "g = c # cs" by (cases g) auto
  from Cons.prems have rest: "\<forall>s\<in>set rest. snd s \<noteq> []" by simp
  show ?case
    by (simp add: s g Cons.IH [OF rest] Let_def)
qed

subsection \<open>The loops as maps and filters\<close>

lemma sections_nonempty: "\<forall>s\<in>set (forIn (groupBy arr fn)). snd s \<noteq> []"
  using groupBy_nonempty [of _ _ arr fn] by (auto simp: set_forIn)




lemma commentingRangesLoop_map:
  "commentingRangesLoop isBase hs acc =
     acc @ map (\<lambda>h. if isBase
                    then vsRange (getZeroBased (oldLineNumber h)) 0
                           (getZeroBased (oldLineNumber h) + getZeroBased (oldLength h)) 0
                    else vsRange (getZeroBased (newLineNumber h)) 0
                           (getZeroBased (newLineNumber h) + getZeroBased (newLength h)) 0) hs"
  by (induction hs arbitrary: acc) (simp_all add: Let_def)

lemma providePRDocumentComments_found:
  assumes "paramsPrNumber p = prNum"
    and "find (\<lambda>change. nodeFileName change = paramsFileName p) changes
           = Some (InMemFileChangeNode fc)"
  shows "providePRDocumentComments m (Some p) document prNum changes draft =
     Inr (Some \<lparr>threads =
                  map (\<lambda>g. \<lparr>threadId = toString (id' (hd g)),
                            resource = uri document,
                            range = vsRange (getZeroBased (commentAbsolutePosition m fc (paramsIsBase p) (hd g))) 0
                                      (getZeroBased (commentAbsolutePosition m fc (paramsIsBase p) (hd g))) 0,
                            threadComments = map toVsCommentWithReactions g,
                            collapsibleState = Some Expanded\<rparr>)
                    (filter (\<lambda>g. 0 \<le> commentAbsolutePosition m fc (paramsIsBase p) (hd g))
                       (map snd (forIn (groupBy (comments fc)
                                          (\<lambda>comment. String_position (position comment)))))),
                commentingRanges = computeCommentingRanges document fc (paramsIsBase p),
                inDraftMode = draft\<rparr>)"
proof (cases "comments fc = []")
  case True
  then show ?thesis using assms
    by (simp add: providePRDocumentComments_def groupBy_Nil forIn_def)
next
  case False
  then show ?thesis using assms
    by (simp add: providePRDocumentComments_def sectionsLoop_map [OF sections_nonempty])
qed

lemma leftLines_filter:
  "leftLines ls acc =
     acc @ map lineText (filter (\<lambda>l. lineType l = Context \<or> lineType l = Delete) ls)"
proof (induction ls arbitrary: acc)
  case Nil
  show ?case by simp
next
  case (Cons a ls)
  then show ?case by (cases "lineType a") simp_all
qed

lemma rightLines_filter:
  "rightLines ls acc =
     acc @ map lineText (filter (\<lambda>l. lineType l = Context \<or> lineType l = Add) ls)"
proof (induction ls arbitrary: acc)
  case Nil
  show ?case by simp
next
  case (Cons a ls)
  then show ?case by (cases "lineType a") simp_all
qed

lemma leftHunks_filter:
  "leftHunks hs acc =
     acc @ map lineText (filter (\<lambda>l. lineType l = Context \<or> lineType l = Delete)
                           (concat (map diffLines hs)))"
  by (induction hs arbitrary: acc) (simp_all add: leftLines_filter)

lemma rightHunks_filter:
  "rightHunks hs acc =
     acc @ map lineText (filter (\<lambda>l. lineType l = Context \<or> lineType l = Add)
                           (concat (map diffLines hs)))"
  by (induction hs arbitrary: acc) (simp_all add: rightLines_filter)






subsection \<open>The reconciler loop\<close>

lemma filter_key_empty_iff: "(filter (\<lambda>x. f x = i) xs = []) = (i \<notin> f ` set xs)"
  by (induction xs) auto

lemma no_match_iff:
  "(length (filter (\<lambda>x. threadId x = i) xs) = 0) = (i \<notin> threadId ` set xs)"
  by (simp add: filter_key_empty_iff)

lemma collapseIfNew_matched: "threadId t \<in> threadId ` set old \<Longrightarrow> collapseIfNew old t = t"
  by (simp add: collapseIfNew_def)

lemma threadId_collapseIfNew: "threadId (collapseIfNew old t) = threadId t"
  by (simp add: collapseIfNew_def)

lemma threadComments_collapseIfNew: "threadComments (collapseIfNew old t) = threadComments t"
  by (simp add: collapseIfNew_def)

lemma changedReports_unmatched: "threadId t \<notin> threadId ` set old \<Longrightarrow> changedReports old t = []"
proof -
  assume "threadId t \<notin> threadId ` set old"
  then have "filter (\<lambda>oldComment. threadId oldComment = threadId t) old = []"
    by (simp add: filter_key_empty_iff)
  then show ?thesis by (simp add: changedReports_def)
qed

lemma addedOrUpdatedLoop_eq:
  "addedOrUpdatedLoop old new (a, c, s) =
     (a @ map (collapseIfNew old) (filter (\<lambda>t. threadId t \<notin> threadId ` set old) new),
      c @ concat (map (changedReports old) new),
      s @ map (collapseIfNew old) new)"
proof (induction new arbitrary: a c s)
  case Nil
  show ?case by simp
next
  case (Cons t rest)
  show ?case
  proof (cases "threadId t \<in> threadId ` set old")
    case True
    then have m: "filter (\<lambda>oldComment. threadId oldComment = threadId t) old \<noteq> []"
      by (simp add: filter_key_empty_iff)
    from True m show ?thesis
      by (simp add: Cons.IH Let_def collapseIfNew_matched changedReports_def)
  next
    case False
    then have m: "filter (\<lambda>oldComment. threadId oldComment = threadId t) old = []"
      by (simp add: filter_key_empty_iff)
    from False m show ?thesis
      by (simp add: Cons.IH Let_def changedReports_unmatched) (simp add: collapseIfNew_def)
  qed
qed


lemma changedThreads_eq: "changedThreads old new = concat (map (changedReports old) new)"
  by (simp add: changedThreads_def getAddedOrUpdatedCommentThreads_def addedOrUpdatedLoop_eq)

lemma threadsAfterReconcile_eq: "threadsAfterReconcile old new = map (collapseIfNew old) new"
  by (simp add: threadsAfterReconcile_def getAddedOrUpdatedCommentThreads_def addedOrUpdatedLoop_eq)

lemma getRemoved_eq:
  "getRemovedCommentThreads old new = filter (\<lambda>t. threadId t \<notin> threadId ` set new) old"
  by (simp add: getRemovedCommentThreads_def filter_key_empty_iff)

lemma set_changedReports: "set (changedReports old t) \<subseteq> {t}"
  by (auto simp: changedReports_def split: if_splits)





lemma commentsEdited_iff:
  "commentsEditedInThread os ns \<longleftrightarrow>
     (\<exists>oc\<in>set os. length (filter (\<lambda>nc. commentId nc = commentId oc) ns) \<noteq> 1)
   \<or> (\<exists>oc\<in>set os. \<exists>nc\<in>set ns. commentId nc = commentId oc \<and> commentBody nc \<noteq> commentBody oc)"
proof -
  have one: "(case filter (\<lambda>nc. commentId nc = commentId oc) ns of
                [x] \<Rightarrow> commentBody x \<noteq> commentBody oc | _ \<Rightarrow> True)
             \<longleftrightarrow> length (filter (\<lambda>nc. commentId nc = commentId oc) ns) \<noteq> 1
                 \<or> (\<exists>nc\<in>set ns. commentId nc = commentId oc \<and> commentBody nc \<noteq> commentBody oc)"
    for oc
  proof (cases "filter (\<lambda>nc. commentId nc = commentId oc) ns")
    case Nil
    then show ?thesis by simp
  next
    case (Cons x xs)
    show ?thesis
    proof (cases xs)
      case Nil
      with Cons have f: "filter (\<lambda>nc. commentId nc = commentId oc) ns = [x]" by simp
      then have "set (filter (\<lambda>nc. commentId nc = commentId oc) ns) = {x}" by simp
      then have only: "\<And>nc. nc \<in> set ns \<Longrightarrow> commentId nc = commentId oc \<Longrightarrow> nc = x"
        and mem: "x \<in> set ns" and same: "commentId x = commentId oc" by auto
      have "(\<exists>nc\<in>set ns. commentId nc = commentId oc \<and> commentBody nc \<noteq> commentBody oc)
                 \<longleftrightarrow> commentBody x \<noteq> commentBody oc"
      proof
        assume "\<exists>nc\<in>set ns. commentId nc = commentId oc \<and> commentBody nc \<noteq> commentBody oc"
        then obtain nc where "nc \<in> set ns" "commentId nc = commentId oc"
          "commentBody nc \<noteq> commentBody oc" by blast
        with only [of nc] show "commentBody x \<noteq> commentBody oc" by simp
      next
        assume "commentBody x \<noteq> commentBody oc"
        with mem same show "\<exists>nc\<in>set ns. commentId nc = commentId oc \<and> commentBody nc \<noteq> commentBody oc"
          by blast
      qed
      with f show ?thesis by simp
    next
      case (Cons y ys)
      with \<open>filter (\<lambda>nc. commentId nc = commentId oc) ns = x # xs\<close> show ?thesis by simp
    qed
  qed
  show ?thesis
    unfolding commentsEditedInThread_def list_ex_iff one by blast
qed

lemma changed_member_iff:
  "t \<in> set (changedThreads old new) \<longleftrightarrow> t \<in> set new \<and> changedReports old t \<noteq> []"
proof
  assume "t \<in> set (changedThreads old new)"
  then obtain t' where t': "t' \<in> set new" and x: "t \<in> set (changedReports old t')"
    unfolding changedThreads_eq by auto
  from x set_changedReports [of old t'] have "t = t'" by blast
  with t' x show "t \<in> set new \<and> changedReports old t \<noteq> []" by auto
next
  assume a: "t \<in> set new \<and> changedReports old t \<noteq> []"
  then obtain y where y: "y \<in> set (changedReports old t)"
    by (cases "changedReports old t") auto
  with set_changedReports [of old t] have "y = t" by blast
  with y a show "t \<in> set (changedThreads old new)"
    unfolding changedThreads_eq by auto
qed

lemma unique_match_filter:
  assumes "m \<in> set old" and "f m = i" and "\<forall>m'\<in>set old. f m' = i \<longrightarrow> m' = m"
  shows "set (filter (\<lambda>x. f x = i) old) = {m}" and "hd (filter (\<lambda>x. f x = i) old) = m"
proof -
  have sub: "set (filter (\<lambda>x. f x = i) old) \<subseteq> {m}"
  proof
    fix x assume "x \<in> set (filter (\<lambda>x. f x = i) old)"
    then have "x \<in> set old" and "f x = i" by simp_all
    with assms(3) have "x = m" by blast
    then show "x \<in> {m}" by simp
  qed
  from assms(1) assms(2) have mem: "m \<in> set (filter (\<lambda>x. f x = i) old)" by simp
  with sub show s: "set (filter (\<lambda>x. f x = i) old) = {m}" by blast
  have "filter (\<lambda>x. f x = i) old \<noteq> []"
  proof
    assume e: "filter (\<lambda>x. f x = i) old = []"
    from mem show False unfolding e by simp
  qed
  then have "hd (filter (\<lambda>x. f x = i) old) \<in> set (filter (\<lambda>x. f x = i) old)" by (rule hd_in_set)
  with s show "hd (filter (\<lambda>x. f x = i) old) = m" by blast
qed

lemma collapseIfNew_cong:
  "threadId ` set old' = threadId ` set old \<Longrightarrow> collapseIfNew old' t = collapseIfNew old t"
  by (simp add: collapseIfNew_def)

lemma collapseIfNew_idem: "collapseIfNew old (collapseIfNew old t) = collapseIfNew old t"
  by (simp add: collapseIfNew_def)

lemma changedReports_collapseIfNew:
  "changedReports old (collapseIfNew old t) = map (collapseIfNew old) (changedReports old t)"
proof (cases "threadId t \<in> threadId ` set old")
  case True
  then have c: "collapseIfNew old t = t" by (rule collapseIfNew_matched)
  have "map (collapseIfNew old) (changedReports old t) = changedReports old t"
  proof (rule map_idI)
    fix x assume "x \<in> set (changedReports old t)"
    with set_changedReports [of old t] have "x = t" by blast
    with c show "collapseIfNew old x = x" by simp
  qed
  with c show ?thesis by simp
next
  case False
  then have "threadId (collapseIfNew old t) \<notin> threadId ` set old"
    by (simp add: threadId_collapseIfNew)
  with False show ?thesis by (simp add: changedReports_unmatched)
qed

lemma changedReports_fixed:
  "changedReports old (collapseIfNew old t) = changedReports old t"
proof (cases "threadId t \<in> threadId ` set old")
  case True
  then show ?thesis by (simp add: collapseIfNew_matched)
next
  case False
  then have "threadId (collapseIfNew old t) \<notin> threadId ` set old"
    by (simp add: threadId_collapseIfNew)
  with False show ?thesis by (simp add: changedReports_unmatched)
qed

lemma second_run_same:
  "getAddedOrUpdatedCommentThreads old (threadsAfterReconcile old new)
     = getAddedOrUpdatedCommentThreads old new"
proof -
  have f: "filter (\<lambda>t. threadId t \<notin> threadId ` set old) (map (collapseIfNew old) new)
         = map (collapseIfNew old) (filter (\<lambda>t. threadId t \<notin> threadId ` set old) new)"
    by (simp add: filter_map o_def threadId_collapseIfNew)
  show ?thesis
    by (simp add: getAddedOrUpdatedCommentThreads_def addedOrUpdatedLoop_eq
          threadsAfterReconcile_eq f o_def collapseIfNew_idem changedReports_fixed)
qed

lemma removed_by_identity:
  "threadId ` set new' = threadId ` set new \<Longrightarrow>
   getRemovedCommentThreads old new' = getRemovedCommentThreads old new"
  by (simp add: getRemoved_eq)

lemma commentsEdited_data:
  "commentsEditedInThread os ns =
     list_ex (\<lambda>d. case filter (\<lambda>newComment. commentId newComment = fst d) ns of
                    [matchingComment] \<Rightarrow> commentBody matchingComment \<noteq> snd d
                  | _ \<Rightarrow> True)
       (map (\<lambda>c. (commentId c, commentBody c)) os)"
  by (simp add: commentsEditedInThread_def list_ex_iff cong: list.case_cong)

lemma commentsEdited_cong:
  "map (\<lambda>c. (commentId c, commentBody c)) os' = map (\<lambda>c. (commentId c, commentBody c)) os \<Longrightarrow>
   commentsEditedInThread os' ns = commentsEditedInThread os ns"
  by (simp only: commentsEdited_data)

lemma changedReports_cong:
  assumes "map identityData old' = map identityData old"
  shows "changedReports old' t = changedReports old t"
proof -
  let ?P = "\<lambda>oldComment. threadId oldComment = threadId t"
  let ?ms = "filter ?P old" and ?ms' = "filter ?P old'"
  have fm: "map identityData (filter ?P xs) = filter (\<lambda>d. fst d = threadId t) (map identityData xs)"
    for xs by (simp add: filter_map o_def identityData_def)
  from assms have m: "map identityData ?ms' = map identityData ?ms" by (simp only: fm)
  show ?thesis
  proof (cases "?ms = []")
    case True
    with m have "?ms' = []" by simp
    with True show ?thesis by (simp add: changedReports_def)
  next
    case False
    with m have ne: "?ms' \<noteq> []" by auto
    from m have "hd (map identityData ?ms') = hd (map identityData ?ms)" by simp
    with False ne have "identityData (hd ?ms') = identityData (hd ?ms)" by (simp add: hd_map)
    then have "map (\<lambda>c. (commentId c, commentBody c)) (threadComments (hd ?ms'))
             = map (\<lambda>c. (commentId c, commentBody c)) (threadComments (hd ?ms))"
      by (simp add: identityData_def)
    then have e: "commentsEditedInThread (threadComments (hd ?ms')) (threadComments t)
                = commentsEditedInThread (threadComments (hd ?ms)) (threadComments t)"
      by (rule commentsEdited_cong)
    let ?F = "\<lambda>d. if length (snd d) \<noteq> length (threadComments t)
                      \<or> commentsEditedInThread (threadComments (hd ?ms)) (threadComments t)
                   then [t] else []"
    have "changedReports old' t = concat (map ?F (map identityData ?ms'))"
      by (simp add: changedReports_def e o_def identityData_def)
    also have "\<dots> = concat (map ?F (map identityData ?ms))" by (simp only: m)
    also have "\<dots> = changedReports old t"
      by (simp add: changedReports_def o_def identityData_def)
    finally show ?thesis .
  qed
qed

lemma added_or_updated_by_identity:
  assumes "map identityData old' = map identityData old"
  shows "getAddedOrUpdatedCommentThreads old' new = getAddedOrUpdatedCommentThreads old new"
proof -
  from assms have "map fst (map identityData old') = map fst (map identityData old)" by simp
  then have "map threadId old' = map threadId old" by (simp add: o_def identityData_def)
  then have "set (map threadId old') = set (map threadId old)" by simp
  then have ids: "threadId ` set old' = threadId ` set old" by simp
  have c: "collapseIfNew old' = collapseIfNew old"
    using collapseIfNew_cong [OF ids] by (rule ext)
  have r: "changedReports old' = changedReports old"
    using changedReports_cong [OF assms] by (rule ext)
  show ?thesis
    by (simp add: getAddedOrUpdatedCommentThreads_def addedOrUpdatedLoop_eq ids c r)
qed

subsection \<open>The examples, evaluated\<close>














subsection \<open>Finding and updating a file change\<close>






subsection \<open>The loop of \<open>deleteDraft\<close>\<close>

















section \<open>Grouping comments into threads\<close>




section \<open>Changed threads\<close>

text \<open>
  Claim C2. Let \<open>t\<close> be a thread of the new generation whose identity names one thread
  \<open>m\<close> of the old generation. The reconciler reports \<open>t\<close> in \<open>changed\<close> exactly when
  the member counts of \<open>m\<close> and \<open>t\<close> differ, or some member of \<open>m\<close> does not have
  exactly one member of \<open>t\<close> with its identity, or some member of \<open>m\<close> has a body other
  than that of a member of \<open>t\<close> with its identity. Hence a thread with the same count,
  identities and bodies is not reported.
\<close>

theorem changed_exactly_when_members_differ:
  assumes "t \<in> set new" and "m \<in> set old" and "threadId m = threadId t"
    and "\<forall>m'\<in>set old. threadId m' = threadId t \<longrightarrow> m' = m"
  shows "t \<in> set (changedThreads old new) \<longleftrightarrow>
      length (threadComments m) \<noteq> length (threadComments t)
    \<or> (\<exists>oc\<in>set (threadComments m).
          length (filter (\<lambda>nc. commentId nc = commentId oc) (threadComments t)) \<noteq> 1)
    \<or> (\<exists>oc\<in>set (threadComments m). \<exists>nc\<in>set (threadComments t).
          commentId nc = commentId oc \<and> commentBody nc \<noteq> commentBody oc)"
proof -
  note u = unique_match_filter [of m old threadId "threadId t", OF assms(2) assms(3) assms(4)]
  have "changedReports old t \<noteq> [] \<longleftrightarrow>
      (\<exists>match\<in>set (filter (\<lambda>oldComment. threadId oldComment = threadId t) old).
         length (threadComments match) \<noteq> length (threadComments t)
         \<or> commentsEditedInThread (threadComments m) (threadComments t))"
    by (auto simp: changedReports_def u(2))
  also have "\<dots> \<longleftrightarrow> length (threadComments m) \<noteq> length (threadComments t)
         \<or> commentsEditedInThread (threadComments m) (threadComments t)"
    unfolding u(1) by simp
  finally show ?thesis
    using assms(1) by (simp add: changed_member_iff commentsEdited_iff)
qed

theorem changed_exactly_when_members_differ_witness:
  "exThread ''1'' ''pr'' [exVs ''1'' ''b'']
     \<in> set (changedThreads [exThread ''1'' ''pr'' [exVs ''1'' ''a'']]
                            [exThread ''1'' ''pr'' [exVs ''1'' ''b'']])
   \<and> exThread ''1'' ''pr'' [exVs ''1'' ''a'']
     \<notin> set (changedThreads [exThread ''1'' ''pr'' [exVs ''1'' ''a'']]
                            [exThread ''1'' ''pr'' [exVs ''1'' ''a'']])"
  using changed_exactly_when_members_differ
    [where t = "exThread ''1'' ''pr'' [exVs ''1'' ''b'']"
       and m = "exThread ''1'' ''pr'' [exVs ''1'' ''a'']"
       and new = "[exThread ''1'' ''pr'' [exVs ''1'' ''b'']]"
       and old = "[exThread ''1'' ''pr'' [exVs ''1'' ''a'']]"]
    changed_exactly_when_members_differ
    [where t = "exThread ''1'' ''pr'' [exVs ''1'' ''a'']"
       and m = "exThread ''1'' ''pr'' [exVs ''1'' ''a'']"
       and new = "[exThread ''1'' ''pr'' [exVs ''1'' ''a'']]"
       and old = "[exThread ''1'' ''pr'' [exVs ''1'' ''a'']]"]
  by (simp add: exThread_def exVs_def)

section \<open>Reconciliation partitions the identities\<close>



section \<open>Display state of added threads\<close>



section \<open>Commenting ranges\<close>

text \<open>
  Claim C5. For a document of this pull request whose file change is held in memory,
  \<open>providePRDocumentComments\<close> returns a result, and its commenting ranges are: for a
  partial file change the single range from line 0 to the document's line count; otherwise
  one range per diff hunk, in hunk order, from the zero-based old start to that plus the
  zero-based old length on the base side, and the same with the new start and new length on
  the head side.
\<close>

theorem commenting_ranges_per_hunk:
  assumes "paramsPrNumber p = prNum"
    and "find (\<lambda>change. nodeFileName change = paramsFileName p) changes
           = Some (InMemFileChangeNode fc)"
  shows "\<exists>info. providePRDocumentComments m (Some p) document prNum changes draft
                   = Inr (Some info)
     \<and> commentingRanges info =
         (if isPartial fc then [vsRange 0 0 (lineCount document) 0]
          else map (\<lambda>h. if paramsIsBase p
                         then vsRange (getZeroBased (oldLineNumber h)) 0
                                (getZeroBased (oldLineNumber h) + getZeroBased (oldLength h)) 0
                         else vsRange (getZeroBased (newLineNumber h)) 0
                                (getZeroBased (newLineNumber h) + getZeroBased (newLength h)) 0)
                 (diffHunks fc))"
  by (simp add: providePRDocumentComments_found [OF assms] computeCommentingRanges_def
        commentingRangesLoop_map)

theorem commenting_ranges_per_hunk_witness:
  "\<exists>info. providePRDocumentComments exMapping (Some (exParams False 7)) exDocument 7
             [InMemFileChangeNode (exFile [])] False = Inr (Some info)
     \<and> commentingRanges info = [vsRange 0 0 3 0, vsRange 10 0 12 0]"
  using commenting_ranges_per_hunk
    [where p = "exParams False 7" and prNum = 7 and changes = "[InMemFileChangeNode (exFile [])]"
       and fc = "exFile []" and m = exMapping and document = exDocument and draft = False]
  by (simp add: exParams_def exFile_def exHunk_def exHunk2_def getZeroBased_def)

section \<open>Content read from the diff hunks\<close>

text \<open>
  Claim C6. When the first in-memory file change of the document's name is partial, added or
  deleted, \<open>provideDocumentContent\<close> returns the texts of the diff lines, hunk after hunk
  and line after line, joined with newlines: the base side keeps exactly the context and
  delete lines, the head side exactly the context and add lines; control lines appear on
  neither side.
\<close>

theorem content_from_diff_hunks:
  assumes "filter (isInMemNamed (paramsFileName p)) changes = InMemFileChangeNode fc # rest"
    and "isPartial fc \<or> status fc = ADD \<or> status fc = DELETE"
  shows "provideDocumentContent src changes (Some p) =
     Inr (join [CHR 0x0A]
            (map lineText
               (filter (\<lambda>l. if paramsIsBase p
                             then lineType l = Context \<or> lineType l = Delete
                             else lineType l = Context \<or> lineType l = Add)
                  (concat (map diffLines (diffHunks fc))))))"
  using assms
  by (auto simp: provideDocumentContent_def leftHunks_filter rightHunks_filter)

theorem content_from_diff_hunks_witness:
  "provideDocumentContent exSources [InMemFileChangeNode ((exFile [])\<lparr>isPartial := True\<rparr>)]
     (Some (exParams True 7))
   = Inr (''context'' @ [CHR 0x0A] @ ''old line'' @ [CHR 0x0A] @ ''context2''
          @ [CHR 0x0A] @ ''ten'' @ [CHR 0x0A] @ ''eleven'')"
  using content_from_diff_hunks
    [where p = "exParams True 7" and changes = "[InMemFileChangeNode ((exFile [])\<lparr>isPartial := True\<rparr>)]"
       and fc = "(exFile [])\<lparr>isPartial := True\<rparr>" and rest = "[]" and src = exSources]
  by (simp add: exParams_def exFile_def exHunk_def exHunk2_def isInMemNamed_def)

section \<open>Threads reported by \<open>deleteDraft\<close>\<close>




section \<open>Determinism of reconciliation\<close>

text \<open>
  Claim C8. Running the added/changed and the removed computation a second time, on the old
  generation and on the new generation as the first run left it, gives the results of the
  first run. The results depend on the generations through identities only: \<open>removed\<close>
  is the same for any new generation with the same thread identities, and \<open>added\<close> and
  \<open>changed\<close> are the same for any old generation with the same thread identities, member
  identities and member bodies, whatever the other fields of its objects are.
\<close>

theorem reconciliation_deterministic:
  "getAddedOrUpdatedCommentThreads old (threadsAfterReconcile old new)
     = getAddedOrUpdatedCommentThreads old new
   \<and> getRemovedCommentThreads old (threadsAfterReconcile old new)
     = getRemovedCommentThreads old new
   \<and> (threadId ` set new' = threadId ` set new
        \<longrightarrow> getRemovedCommentThreads old new' = getRemovedCommentThreads old new)
   \<and> (map (\<lambda>t. (threadId t, map (\<lambda>c. (commentId c, commentBody c)) (threadComments t))) old'
        = map (\<lambda>t. (threadId t, map (\<lambda>c. (commentId c, commentBody c)) (threadComments t))) old
        \<longrightarrow> getAddedOrUpdatedCommentThreads old' new = getAddedOrUpdatedCommentThreads old new)"
proof -
  have "threadId ` set (threadsAfterReconcile old new) = threadId ` set new"
    by (simp add: threadsAfterReconcile_eq image_image threadId_collapseIfNew)
  then have "getRemovedCommentThreads old (threadsAfterReconcile old new)
     = getRemovedCommentThreads old new" by (rule removed_by_identity)
  moreover have "map (\<lambda>t. (threadId t, map (\<lambda>c. (commentId c, commentBody c)) (threadComments t))) old'
        = map (\<lambda>t. (threadId t, map (\<lambda>c. (commentId c, commentBody c)) (threadComments t))) old
        \<Longrightarrow> getAddedOrUpdatedCommentThreads old' new = getAddedOrUpdatedCommentThreads old new"
    using added_or_updated_by_identity [of old' old new]
    unfolding identityData_def by simp
  ultimately show ?thesis
    using second_run_same [of old new] removed_by_identity [of new' new old] by blast
qed

theorem reconciliation_deterministic_witness:
  "getAddedOrUpdatedCommentThreads
       [exThread ''1'' ''pr'' [exVs ''1'' ''a''], exThread ''2'' ''pr'' [exVs ''2'' ''b'']]
       (threadsAfterReconcile
          [exThread ''1'' ''pr'' [exVs ''1'' ''a''], exThread ''2'' ''pr'' [exVs ''2'' ''b'']]
          [exThread ''2'' ''pr'' [exVs ''2'' ''c''], exThread ''3'' ''file'' [exVs ''3'' ''d'']])
     = getAddedOrUpdatedCommentThreads
       [exThread ''1'' ''pr'' [exVs ''1'' ''a''], exThread ''2'' ''pr'' [exVs ''2'' ''b'']]
       [exThread ''2'' ''pr'' [exVs ''2'' ''c''], exThread ''3'' ''file'' [exVs ''3'' ''d'']]
   \<and> getRemovedCommentThreads
       [exThread ''1'' ''pr'' [exVs ''1'' ''a''], exThread ''2'' ''pr'' [exVs ''2'' ''b'']]
       [exThread ''3'' ''pr'' [], exThread ''2'' ''file'' []]
     = getRemovedCommentThreads
       [exThread ''1'' ''pr'' [exVs ''1'' ''a''], exThread ''2'' ''pr'' [exVs ''2'' ''b'']]
       [exThread ''2'' ''pr'' [exVs ''2'' ''c''], exThread ''3'' ''file'' [exVs ''3'' ''d'']]
   \<and> getAddedOrUpdatedCommentThreads
       [exThread ''1'' ''file'' [exVs ''1'' ''a''], exThread ''2'' ''file'' [exVs ''2'' ''b'']]
       [exThread ''2'' ''pr'' [exVs ''2'' ''c''], exThread ''3'' ''file'' [exVs ''3'' ''d'']]
     = getAddedOrUpdatedCommentThreads
       [exThread ''1'' ''pr'' [exVs ''1'' ''a''], exThread ''2'' ''pr'' [exVs ''2'' ''b'']]
       [exThread ''2'' ''pr'' [exVs ''2'' ''c''], exThread ''3'' ''file'' [exVs ''3'' ''d'']]"
proof -
  let ?old = "[exThread ''1'' ''pr'' [exVs ''1'' ''a''], exThread ''2'' ''pr'' [exVs ''2'' ''b'']]"
  let ?new = "[exThread ''2'' ''pr'' [exVs ''2'' ''c''], exThread ''3'' ''file'' [exVs ''3'' ''d'']]"
  let ?new' = "[exThread ''3'' ''pr'' [], exThread ''2'' ''file'' []]"
  let ?old' = "[exThread ''1'' ''file'' [exVs ''1'' ''a''], exThread ''2'' ''file'' [exVs ''2'' ''b'']]"
  note th = reconciliation_deterministic [where old = ?old and new = ?new and new' = ?new'
      and old' = ?old']
  have h1: "threadId ` set ?new' = threadId ` set ?new" by (auto simp: exThread_def)
  have h2: "map (\<lambda>t. (threadId t, map (\<lambda>c. (commentId c, commentBody c)) (threadComments t))) ?old'
          = map (\<lambda>t. (threadId t, map (\<lambda>c. (commentId c, commentBody c)) (threadComments t))) ?old"
    by (simp add: exThread_def)
  from th h1 h2 show ?thesis by blast
qed

section \<open>Not-found errors of edit, delete and reply\<close>

text \<open>
  Claim C9, as the code has it. When no file change has the document's name, \<open>editComment\<close>,
  \<open>deleteComment\<close> and \<open>replyToCommentThread\<close> all fail with the node unchanged. When the
  file change holds no comment of the given identity, \<open>editComment\<close> and
  \<open>replyToCommentThread\<close> fail with the node unchanged, but \<open>deleteComment\<close> does not
  fail: it sends the delete to the remote and, when that and the draft-mode query succeed,
  fires its event and leaves the node unchanged. Every error of \<open>editComment\<close> and of
  \<open>replyToCommentThread\<close> leaves the node unchanged.
\<close>

theorem not_found_errors_leave_comments_unchanged:
  "(params = Some p
      \<and> find (\<lambda>change. nodeFileName change = paramsFileName p) (fileChanges node) = None
    \<longrightarrow> editComment mgr node params comment content = (Inl NoMatchingFile, node)
        \<and> deleteComment mgr node params comment = (Inl NoMatchingFile, node)
        \<and> replyToCommentThread mgr node params thread content
            = (Inl (Formatted NoMatchingFile), node))
   \<and> (findMatchingFileNode node params = Inr fc
        \<and> find (\<lambda>c. toString (id' c) = commentId comment) (comments fc) = None
      \<longrightarrow> editComment mgr node params comment content = (Inl UnableToFindComment, node))
   \<and> (findMatchingFileNode node params = Inr fc
        \<and> find (\<lambda>c. toString (id' c) = threadId thread) (comments fc) = None
      \<longrightarrow> replyToCommentThread mgr node params thread content
            = (Inl (Formatted UnableToFindThread), node))
   \<and> (findMatchingFileNode node params = Inr fc
        \<and> find (\<lambda>c. toString (id' c) = commentId comment) (comments fc) = None
        \<and> deleteReviewComment mgr (commentId comment) = Inr ()
        \<and> managerInDraftMode mgr = Inr draft
      \<longrightarrow> deleteComment mgr node params comment
            = (Inr \<lparr>added = [], removed = [], changed = [], eventInDraftMode = draft\<rparr>, node))
   \<and> (fst (editComment mgr node params comment content) = Inl e
      \<longrightarrow> snd (editComment mgr node params comment content) = node)
   \<and> (fst (replyToCommentThread mgr node params thread content) = Inl e
      \<longrightarrow> snd (replyToCommentThread mgr node params thread content) = node)"
proof -
  have nf: "find P xs = None \<Longrightarrow> findIndex P xs = - 1" for P :: "Comment \<Rightarrow> bool" and xs
    by (induction xs) (auto split: if_splits)
  have e: "fst (editComment mgr node params comment content) = Inl e
      \<longrightarrow> snd (editComment mgr node params comment content) = node"
    by (auto simp: editComment_def Let_def split: sum.splits option.splits)
  have r: "fst (replyToCommentThread mgr node params thread content) = Inl e
      \<longrightarrow> snd (replyToCommentThread mgr node params thread content) = node"
    by (auto simp: replyToCommentThread_def split: sum.splits option.splits)
  from e r show ?thesis
    by (auto simp: editComment_def deleteComment_def replyToCommentThread_def
          findMatchingFileNode_def nf Let_def)
qed

theorem not_found_errors_leave_comments_unchanged_witness:
  "editComment exManager exNode (Some (exParams False 7)) (exVs ''999'' ''gone'') ''new''
     = (Inl UnableToFindComment, exNode)
   \<and> replyToCommentThread exManager exNode (Some (exParams False 7))
       (exThread ''999'' ''pr'' []) ''re'' = (Inl (Formatted UnableToFindThread), exNode)
   \<and> deleteComment exManager exNode (Some ((exParams False 7)\<lparr>paramsFileName := ''none.ts''\<rparr>))
       (exVs ''100'' ''top'') = (Inl NoMatchingFile, exNode)"
proof -
  let ?fc = "exFile [exComment 100 (Some 5) ''top'']"
  have i: "toString 100 = ''100''"
    by (simp add: toString_def decimal.simps digitChar_def)
  have f: "findMatchingFileNode exNode (Some (exParams False 7)) = Inr ?fc"
    by (simp add: findMatchingFileNode_def exNode_def exParams_def exFile_def)
  have c: "find (\<lambda>c. toString (id' c) = commentId (exVs ''999'' ''gone'')) (comments ?fc) = None"
    by (simp add: exFile_def exComment_def exVs_def i)
  have t: "find (\<lambda>c. toString (id' c) = threadId (exThread ''999'' ''pr'' [])) (comments ?fc) = None"
    by (simp add: exFile_def exComment_def exThread_def i)
  have n: "find (\<lambda>change. nodeFileName change
                  = paramsFileName ((exParams False 7)\<lparr>paramsFileName := ''none.ts''\<rparr>))
             (fileChanges exNode) = None"
    by (simp add: exNode_def exFile_def)
  note th1 = not_found_errors_leave_comments_unchanged
    [where node = exNode and params = "Some (exParams False 7)" and fc = ?fc
       and comment = "exVs ''999'' ''gone''" and thread = "exThread ''999'' ''pr'' []"
       and mgr = exManager and content = "''new''"]
  note th2 = not_found_errors_leave_comments_unchanged
    [where node = exNode and params = "Some (exParams False 7)" and fc = ?fc
       and comment = "exVs ''999'' ''gone''" and thread = "exThread ''999'' ''pr'' []"
       and mgr = exManager and content = "''re''"]
  note th3 = not_found_errors_leave_comments_unchanged
    [where node = exNode and params = "Some ((exParams False 7)\<lparr>paramsFileName := ''none.ts''\<rparr>)"
       and p = "(exParams False 7)\<lparr>paramsFileName := ''none.ts''\<rparr>"
       and comment = "exVs ''100'' ''top''" and mgr = exManager]
  from th1 f c have a: "editComment exManager exNode (Some (exParams False 7))
      (exVs ''999'' ''gone'') ''new'' = (Inl UnableToFindComment, exNode)" by blast
  from th2 f t have b: "replyToCommentThread exManager exNode (Some (exParams False 7))
       (exThread ''999'' ''pr'' []) ''re'' = (Inl (Formatted UnableToFindThread), exNode)" by blast
  from th3 n have d: "deleteComment exManager exNode
       (Some ((exParams False 7)\<lparr>paramsFileName := ''none.ts''\<rparr>))
       (exVs ''100'' ''top'') = (Inl NoMatchingFile, exNode)" by blast
  from a b d show ?thesis by (intro conjI)
qed

text \<open>
  Claim C9 as stated fails for \<open>deleteComment\<close>: the file's comment list has no comment
  \<open>999\<close>, and deleting it returns the event, not an error.
\<close>

theorem delete_of_absent_comment_is_no_error:
  "find (\<lambda>c. toString (id' c) = commentId (exVs ''999'' ''gone''))
       (comments (exFile [exComment 100 (Some 5) ''top''])) = None
   \<and> findMatchingFileNode exNode (Some (exParams False 7))
       = Inr (exFile [exComment 100 (Some 5) ''top''])
   \<and> deleteComment exManager exNode (Some (exParams False 7)) (exVs ''999'' ''gone'')
       = (Inr \<lparr>added = [], removed = [], changed = [], eventInDraftMode = False\<rparr>, exNode)"
proof -
  have i: "toString 100 = ''100''"
    by (simp add: toString_def decimal.simps digitChar_def)
  have f: "findMatchingFileNode exNode (Some (exParams False 7))
       = Inr (exFile [exComment 100 (Some 5) ''top''])"
    by (simp add: findMatchingFileNode_def exNode_def exParams_def exFile_def)
  have c: "find (\<lambda>c. toString (id' c) = commentId (exVs ''999'' ''gone''))
       (comments (exFile [exComment 100 (Some 5) ''top''])) = None"
    by (simp add: exFile_def exComment_def exVs_def i)
  have x: "findIndex (\<lambda>c. toString (id' c) = commentId (exVs ''999'' ''gone''))
       (comments (exFile [exComment 100 (Some 5) ''top''])) = - 1"
    by (simp add: exFile_def exComment_def exVs_def i)
  have d: "deleteComment exManager exNode (Some (exParams False 7)) (exVs ''999'' ''gone'')
       = (Inr \<lparr>added = [], removed = [], changed = [], eventInDraftMode = False\<rparr>, exNode)"
    by (simp add: deleteComment_def f x Let_def exManager_def)
  from c f d show ?thesis by (intro conjI)
qed

section \<open>Creating a thread\<close>




end
